theory Spec2Isabelle
  imports Complex_Main "HOL-Library.List_Lexorder" "HOL-Library.Char_ord"
begin

section \<open>Data model\<close>

text \<open>
  A langchain \<open>Document\<close>: the text of a page or chunk and its metadata dictionary
  (PyPDFLoader fills in \<open>source\<close> and \<open>page\<close>), kept as an association list.
\<close>

record document =
  page_content :: string
  metadata :: "(string \<times> string) list"

type_synonym vector = "real list"

text \<open>
  Exceptions that the calls of \<open>rag/ingest.py\<close> and \<open>rag/rag.py\<close> can raise. The names
  \<open>LoaderError\<close>, \<open>ServiceError\<close> and \<open>DimensionMismatchError\<close> follow the error
  taxonomy of the specification; \<open>FileExistsError\<close> is raised by
  \<open>Path.mkdir(parents=True, exist_ok=True)\<close> on a path that is a regular file,
  \<open>RuntimeError\<close> by \<open>FAISS.load_local\<close> on a directory that holds no index, and
  \<open>ValueError\<close> stands for what the vector store raises on a batch it cannot add (no
  document, or not one vector for every document).
\<close>

datatype error =
    LoaderError string
  | ServiceError string
  | DimensionMismatchError
  | ValueError
  | FileExistsError
  | RuntimeError

text \<open>
  The embedding client (\<open>OpenAIEmbeddings\<close>): a batch call on texts and a call on one
  query, each of which may fail.
\<close>

record embeddings =
  embed_documents :: "string list \<Rightarrow> error + vector list"
  embed_query :: "string \<Rightarrow> error + vector"

text \<open>The constructor \<open>OpenAIEmbeddings(api_key=..., model=...)\<close>.\<close>

type_synonym openai = "string \<Rightarrow> string \<Rightarrow> embeddings"

text \<open>
  The in-memory vector store (an object of the class \<open>FAISS\<close>): the embedding client it
  was built or loaded with, and one entry per chunk, the document with its embedding, in
  insertion order.
\<close>

type_synonym entry = "document \<times> vector"

record vectorstore =
  embedding_function :: embeddings
  entries :: "entry list"

text \<open>
  What is on disk at an index path: nothing, a regular file, or a directory, which holds
  the entries of a saved vector store (\<open>index.faiss\<close> with \<open>index.pkl\<close>) or none.
\<close>

datatype dir_state = Absent | NotADirectory | Directory "entry list option"

text \<open>
  The world that ingestion acts on: the disk, and the batches of texts sent to the
  embedding service so far.
\<close>

record world =
  disk :: "string \<Rightarrow> dir_state"
  embedded :: "string list list"

text \<open>The arguments given to \<open>RecursiveCharacterTextSplitter\<close>.\<close>

record splitter_config =
  chunk_size :: int
  chunk_overlap :: int
  separators :: "string list"

section \<open>The vector store library\<close>

text \<open>
  Modelled from the spec: the class \<open>FAISS\<close> of \<open>langchain_community\<close> is not part of
  the sources; the four operations below follow sections 4.2 to 4.4 of the specification.
  Building or extending a store embeds the texts of the new documents in one batch call
  (a failure of the call fails the whole operation) and appends one entry per document in
  the order given; saving writes the entries under the directory, loading reads them
  back into a store with the embedding client given to the call.

  The dimensionality of an index is the length of its embeddings: \<open>uniform\<close> says that
  every embedding of a list of entries has the length of the first. Appending fails with
  \<open>DimensionMismatchError\<close> when the entries would not be uniform afterwards, and the
  store is then unchanged. A batch without documents, and a reply of the embedder that
  does not hold one vector for every document, are refused before anything is appended.
\<close>

fun uniform :: "entry list \<Rightarrow> bool" where
  "uniform [] = True"
| "uniform ((d, v) # es) = list_all (\<lambda>(d', v'). length v' = length v) es"

definition append_entries :: "entry list \<Rightarrow> document list \<Rightarrow> vector list \<Rightarrow> error + entry list" where
  "append_entries es docs vecs =
     (if docs = [] \<or> length vecs \<noteq> length docs then Inl ValueError
      else if \<not> uniform (es @ zip docs vecs) then Inl DimensionMismatchError
      else Inr (es @ zip docs vecs))"

definition call_embed_documents ::
  "embeddings \<Rightarrow> string list \<Rightarrow> world \<Rightarrow> (error + vector list) \<times> world" where
  "call_embed_documents emb texts w =
     (embed_documents emb texts, w\<lparr>embedded := embedded w @ [texts]\<rparr>)"

definition from_documents ::
  "document list \<Rightarrow> embeddings \<Rightarrow> world \<Rightarrow> (error + vectorstore) \<times> world" where
  "from_documents docs emb w =
     (case call_embed_documents emb (map page_content docs) w of
        (Inl e, w') \<Rightarrow> (Inl e, w')
      | (Inr vecs, w') \<Rightarrow>
          (case append_entries [] docs vecs of
             Inl e \<Rightarrow> (Inl e, w')
           | Inr es \<Rightarrow> (Inr \<lparr>embedding_function = emb, entries = es\<rparr>, w')))"

definition add_documents ::
  "vectorstore \<Rightarrow> document list \<Rightarrow> world \<Rightarrow> (error + vectorstore) \<times> world" where
  "add_documents vs docs w =
     (case call_embed_documents (embedding_function vs) (map page_content docs) w of
        (Inl e, w') \<Rightarrow> (Inl e, w')
      | (Inr vecs, w') \<Rightarrow>
          (case append_entries (entries vs) docs vecs of
             Inl e \<Rightarrow> (Inl e, w')
           | Inr es \<Rightarrow> (Inr (vs\<lparr>entries := es\<rparr>), w')))"

definition save_local :: "vectorstore \<Rightarrow> string \<Rightarrow> world \<Rightarrow> world" where
  "save_local vs index_dir w =
     w\<lparr>disk := (disk w)(index_dir := Directory (Some (entries vs)))\<rparr>"

definition load_local :: "string \<Rightarrow> embeddings \<Rightarrow> world \<Rightarrow> error + vectorstore" where
  "load_local index_dir emb w =
     (case disk w index_dir of
        Directory (Some es) \<Rightarrow> Inr \<lparr>embedding_function = emb, entries = es\<rparr>
      | _ \<Rightarrow> Inl RuntimeError)"

section \<open>Ingestion (\<open>rag/ingest.py\<close>)\<close>

text \<open>\<open>index_dir.mkdir(parents=True, exist_ok=True)\<close>.\<close>

definition ensure_index :: "string \<Rightarrow> world \<Rightarrow> error + world" where
  "ensure_index index_dir w =
     (case disk w index_dir of
        Absent \<Rightarrow> Inr (w\<lparr>disk := (disk w)(index_dir := Directory None)\<rparr>)
      | NotADirectory \<Rightarrow> Inl FileExistsError
      | Directory c \<Rightarrow> Inr w)"

text \<open>
  \<open>list(_load_pdfs(paths))\<close>: the generator loads the files in order and yields their
  pages; an exception of \<open>loader.load()\<close> leaves the generator and the \<open>list\<close> call.
\<close>

fun load_pdfs :: "(string \<Rightarrow> error + document list) \<Rightarrow> string list \<Rightarrow> error + document list" where
  "load_pdfs loader [] = Inr []"
| "load_pdfs loader (path # paths) =
     (case loader path of
        Inl e \<Rightarrow> Inl e
      | Inr pages \<Rightarrow>
          (case load_pdfs loader paths of
             Inl e \<Rightarrow> Inl e
           | Inr rest \<Rightarrow> Inr (pages @ rest)))"

text \<open>
  \<open>_split_docs\<close>: the splitter of the library is a parameter; the function fixes its
  configuration.
\<close>

definition split_docs ::
  "(splitter_config \<Rightarrow> document list \<Rightarrow> document list) \<Rightarrow> document list \<Rightarrow> int \<Rightarrow> int \<Rightarrow> document list" where
  "split_docs split_documents documents max_len overlap =
     split_documents
       \<lparr>chunk_size = max_len, chunk_overlap = overlap,
        separators = [''\<newline>\<newline>'', ''\<newline>'', '' '', '''']\<rparr>
       documents"

definition get_embeddings :: "openai \<Rightarrow> string \<Rightarrow> embeddings" where
  "get_embeddings client api_key = client api_key ''text-embedding-3-small''"

text \<open>\<open>(index_dir / "index.faiss").exists()\<close>.\<close>

definition index_faiss_exists :: "string \<Rightarrow> world \<Rightarrow> bool" where
  "index_faiss_exists index_dir w =
     (case disk w index_dir of Directory (Some es) \<Rightarrow> True | _ \<Rightarrow> False)"

text \<open>
  \<open>add_pdfs_to_index\<close>. The result pairs the outcome (\<open>Inl\<close> the exception that left the
  function, \<open>Inr ()\<close> a normal return) with the world at that moment. The default
  arguments 1000 and 150 of \<open>_split_docs\<close> are written out at the call.
\<close>

definition add_pdfs_to_index ::
  "(string \<Rightarrow> error + document list) \<Rightarrow> (splitter_config \<Rightarrow> document list \<Rightarrow> document list) \<Rightarrow>
   openai \<Rightarrow> string list \<Rightarrow> string \<Rightarrow> string \<Rightarrow> world \<Rightarrow> (error + unit) \<times> world" where
  "add_pdfs_to_index loader split_documents client pdf_paths index_dir api_key w =
     (case ensure_index index_dir w of
        Inl e \<Rightarrow> (Inl e, w)
      | Inr w1 \<Rightarrow>
          (case load_pdfs loader pdf_paths of
             Inl e \<Rightarrow> (Inl e, w1)
           | Inr raw_docs \<Rightarrow>
               if raw_docs = [] then (Inr (), w1)
               else
                 let docs = split_docs split_documents raw_docs 1000 150;
                     emb = get_embeddings client api_key
                 in if index_faiss_exists index_dir w1 then
                      (case load_local index_dir emb w1 of
                         Inl e \<Rightarrow> (Inl e, w1)
                       | Inr vs \<Rightarrow>
                           (case add_documents vs docs w1 of
                              (Inl e, w2) \<Rightarrow> (Inl e, w2)
                            | (Inr vs', w2) \<Rightarrow> (Inr (), save_local vs' index_dir w2)))
                    else
                      (case from_documents docs emb w1 of
                         (Inl e, w2) \<Rightarrow> (Inl e, w2)
                       | (Inr vs, w2) \<Rightarrow> (Inr (), save_local vs index_dir w2))))"

text \<open>The entries of the vector store saved at a path, if there is one.\<close>

definition saved_index :: "string \<Rightarrow> world \<Rightarrow> entry list option" where
  "saved_index index_dir w =
     (case disk w index_dir of Directory c \<Rightarrow> c | _ \<Rightarrow> None)"

section \<open>Retrieval and answering (\<open>rag/rag.py\<close>)\<close>

subsection \<open>Nearest-neighbour search\<close>

text \<open>
  Modelled from the spec: the similarity search of the class \<open>FAISS\<close> and the retriever
  object that \<open>as_retriever\<close> returns are library code, not part of the sources. Section
  4.3 of the specification: the search returns the top \<open>k\<close> chunks ranked by descending
  similarity to the query vector, ties broken by insertion order (the chunk inserted
  earlier wins); section 4.5: the retriever embeds the query with the embedder and calls
  the search. The similarity \<open>metric\<close> is a parameter (cosine similarity or an equivalent,
  fixed for an index). \<open>ranked\<close> pairs every entry with its position in the store and
  sorts the pairs by descending similarity with a stable sort; \<open>hits\<close> are the positions
  of the first \<open>k\<close>.
\<close>

definition ranked :: "(vector \<Rightarrow> vector \<Rightarrow> real) \<Rightarrow> vector \<Rightarrow> entry list \<Rightarrow> (nat \<times> entry) list" where
  "ranked metric q es = sort_key (\<lambda>(i, d, v). - metric q v) (enumerate 0 es)"

definition hits :: "(vector \<Rightarrow> vector \<Rightarrow> real) \<Rightarrow> entry list \<Rightarrow> vector \<Rightarrow> int \<Rightarrow> nat list" where
  "hits metric es q k = map fst (take (nat k) (ranked metric q es))"

definition similarity_search_by_vector ::
  "(vector \<Rightarrow> vector \<Rightarrow> real) \<Rightarrow> vectorstore \<Rightarrow> vector \<Rightarrow> int \<Rightarrow> document list" where
  "similarity_search_by_vector metric vs q k =
     map (\<lambda>(i, d, v). d) (take (nat k) (ranked metric q (entries vs)))"

text \<open>
  Position \<open>i\<close> of the store outranks position \<open>j\<close> for the query vector \<open>q\<close>: its
  entry is more similar to \<open>q\<close>, or as similar and inserted earlier.
\<close>

definition outranks :: "(vector \<Rightarrow> vector \<Rightarrow> real) \<Rightarrow> vector \<Rightarrow> entry list \<Rightarrow> nat \<Rightarrow> nat \<Rightarrow> bool" where
  "outranks metric q es i j \<longleftrightarrow>
     metric q (snd (es ! j)) < metric q (snd (es ! i))
     \<or> (metric q (snd (es ! j)) = metric q (snd (es ! i)) \<and> i < j)"

record retriever =
  vectorstore :: vectorstore
  search_k :: int

definition as_retriever :: "vectorstore \<Rightarrow> int \<Rightarrow> retriever" where
  "as_retriever vs k = \<lparr>vectorstore = vs, search_k = k\<rparr>"

definition get_relevant_documents ::
  "(vector \<Rightarrow> vector \<Rightarrow> real) \<Rightarrow> retriever \<Rightarrow> string \<Rightarrow> error + document list" where
  "get_relevant_documents metric r question =
     (case embed_query (embedding_function (vectorstore r)) question of
        Inl e \<Rightarrow> Inl e
      | Inr q \<Rightarrow> Inr (similarity_search_by_vector metric (vectorstore r) q (search_k r)))"

subsection \<open>The functions of \<open>rag/rag.py\<close>\<close>

text \<open>\<open>load_retriever\<close>; the default of \<open>k\<close> is 4.\<close>

definition load_retriever :: "openai \<Rightarrow> string \<Rightarrow> string \<Rightarrow> int \<Rightarrow> world \<Rightarrow> error + retriever" where
  "load_retriever client index_dir api_key k w =
     (let emb = get_embeddings client api_key
      in case load_local index_dir emb w of
           Inl e \<Rightarrow> Inl e
         | Inr vs \<Rightarrow> Inr (as_retriever vs k))"

text \<open>The dataclass \<open>QAResult\<close>.\<close>

record qa_result =
  answer :: string
  sources :: "document list"

text \<open>A chat message, as the dictionaries with the keys \<open>role\<close> and \<open>content\<close>.\<close>

record message =
  role :: string
  content :: string

text \<open>
  What \<open>llm.invoke\<close> returns: an object that may have an attribute \<open>content\<close>, and its
  \<open>str\<close>.
\<close>

record response =
  content_attr :: "string option"
  str_of :: string

text \<open>
  The constructor \<open>ChatOpenAI(model=..., temperature=..., api_key=...)\<close> followed by
  \<open>invoke\<close> on the messages.
\<close>

type_synonym chat_openai = "string \<Rightarrow> real \<Rightarrow> string \<Rightarrow> message list \<Rightarrow> error + response"

text \<open>Python's \<open>sep.join(xs)\<close>.\<close>

fun join :: "string \<Rightarrow> string list \<Rightarrow> string" where
  "join sep [] = []"
| "join sep [x] = x"
| "join sep (x # y # ys) = x @ sep @ join sep (y # ys)"

definition system_prompt :: string where
  "system_prompt =
     ''You are a helpful assistant that answers strictly based on the provided context. ''
     @ ''If the answer is not contained in the context, say you don't know. Provide concise answers.''"

text \<open>
  \<open>answer_question\<close>. The parameter \<open>retriever\<close> is the method
  \<open>retriever.get_relevant_documents\<close> of the object passed in the source.
\<close>

definition answer_question ::
  "chat_openai \<Rightarrow> (string \<Rightarrow> error + document list) \<Rightarrow> string \<Rightarrow> string \<Rightarrow> real \<Rightarrow> string \<Rightarrow>
   error + qa_result" where
  "answer_question chat retriever question model temperature api_key =
     (let llm = chat model temperature api_key
      in case retriever question of
           Inl e \<Rightarrow> Inl e
         | Inr docs \<Rightarrow>
             let context = join ''\<newline>\<newline>'' (map page_content docs);
                 messages =
                   [\<lparr>role = ''system'', content = system_prompt\<rparr>,
                    \<lparr>role = ''user'',
                     content = ''Context:\<newline>'' @ context @ ''\<newline>\<newline>Question: '' @ question\<rparr>]
             in case llm messages of
                  Inl e \<Rightarrow> Inl e
                | Inr response \<Rightarrow>
                    let answer_text =
                          (case content_attr response of Some c \<Rightarrow> c | None \<Rightarrow> str_of response)
                    in Inr \<lparr>answer = answer_text, sources = docs\<rparr>)"

section \<open>Resetting the index (\<open>app.py\<close>)\<close>

text \<open>
  What lies below \<open>INDEX_DIR\<close>: every file and directory with its path relative to
  \<open>INDEX_DIR\<close>, a list of names. The order of the list is the order in which
  \<open>INDEX_DIR.glob("**/*")\<close> yields the paths.
\<close>

type_synonym fpath = "string list"

datatype node = File | Folder

type_synonym tree = "(fpath \<times> node) list"


text \<open>The subclasses of \<open>OSError\<close> that \<open>unlink\<close> and \<open>rmdir\<close> raise.\<close>

datatype os_error =
    FileNotFoundError
  | IsADirectoryError
  | NotADirectoryError
  | DirectoryNotEmpty


definition remove_path :: "fpath \<Rightarrow> tree \<Rightarrow> tree" where
  "remove_path p t = filter (\<lambda>(q, n). q \<noteq> p) t"

definition has_children :: "tree \<Rightarrow> fpath \<Rightarrow> bool" where
  "has_children t p = list_ex (\<lambda>(q, n). q \<noteq> [] \<and> butlast q = p) t"


definition is_dir :: "tree \<Rightarrow> fpath \<Rightarrow> bool" where
  "is_dir t p \<longleftrightarrow> map_of t p = Some Folder"

text \<open>\<open>Path.rmdir()\<close>: only an empty directory is removed.\<close>

definition rmdir :: "fpath \<Rightarrow> tree \<Rightarrow> os_error + tree" where
  "rmdir p t =
     (case map_of t p of
        None \<Rightarrow> Inl FileNotFoundError
      | Some File \<Rightarrow> Inl NotADirectoryError
      | Some Folder \<Rightarrow> if has_children t p then Inl DirectoryNotEmpty else Inr (remove_path p t))"



text \<open>
  The second loop: \<open>rmdir\<close> on the paths that are directories, inside
  \<open>try ... except OSError: pass\<close>, which catches every error of \<open>rmdir\<close>.
\<close>

fun rmdir_all :: "fpath list \<Rightarrow> tree \<Rightarrow> tree" where
  "rmdir_all [] t = t"
| "rmdir_all (p # ps) t =
     (if is_dir t p then
        (case rmdir p t of
           Inr t' \<Rightarrow> rmdir_all ps t'
         | Inl e \<Rightarrow> rmdir_all ps t)
      else rmdir_all ps t)"



section \<open>Example collaborators\<close>

text \<open>
  A loader, a splitter and an embedding client on which the theorems below are run:
  the loader fails on \<open>broken.pdf\<close> and \<open>torn.pdf\<close> and finds no page in \<open>blank.pdf\<close>, the splitter
  keeps every page as one chunk, the client fails on a batch that holds the text
  \<open>down.pdf\<close>.
\<close>

definition example_loader :: "string \<Rightarrow> error + document list" where
  "example_loader path =
     (if path = ''broken.pdf'' \<or> path = ''torn.pdf'' then Inl (LoaderError path)
      else if path = ''blank.pdf'' then Inr []
      else Inr [\<lparr>page_content = path, metadata = [(''source'', path), (''page'', ''0'')]\<rparr>])"

definition example_splitter :: "splitter_config \<Rightarrow> document list \<Rightarrow> document list" where
  "example_splitter cfg documents = documents"

definition example_client :: openai where
  "example_client api_key model_name =
     \<lparr>embed_documents =
        (\<lambda>texts. if ''down.pdf'' \<in> set texts then Inl (ServiceError ''rate limit'')
                else Inr (map (\<lambda>t. [real (length t)]) texts)),
      embed_query = (\<lambda>t. Inr [real (length t)])\<rparr>"

definition empty_world :: world where
  "empty_world = \<lparr>disk = (\<lambda>p. Absent), embedded = []\<rparr>"

text \<open>A world whose directory \<open>idx\<close> holds a saved index of one entry.\<close>

definition indexed_world :: world where
  "indexed_world =
     \<lparr>disk = (\<lambda>p. if p = ''idx'' then Directory (Some [(\<lparr>page_content = ''old'', metadata = []\<rparr>, [3])])
                   else Absent),
      embedded = []\<rparr>"

text \<open>
  A world whose directory \<open>idx\<close> holds three entries, the first and the third with the
  same embedding; a similarity (the negated distance of the sums of two vectors); a chat
  model that answers with the content of the last message.
\<close>

definition example_entries :: "entry list" where
  "example_entries =
     [(\<lparr>page_content = ''aa'', metadata = []\<rparr>, [2]),
      (\<lparr>page_content = ''bbbbb'', metadata = []\<rparr>, [5]),
      (\<lparr>page_content = ''cc'', metadata = []\<rparr>, [2])]"

definition library_world :: world where
  "library_world =
     \<lparr>disk = (\<lambda>p. if p = ''idx'' then Directory (Some example_entries) else Absent),
      embedded = []\<rparr>"

definition example_metric :: "vector \<Rightarrow> vector \<Rightarrow> real" where
  "example_metric q v = - \<bar>sum_list q - sum_list v\<bar>"

definition example_chat :: chat_openai where
  "example_chat model_name temperature api_key messages =
     Inr \<lparr>content_attr = Some (content (last messages)), str_of = ''AIMessage''\<rparr>"


section \<open>Properties of ingestion\<close>

subsection \<open>Auxiliary facts\<close>

lemma ensure_index_frame:
  assumes "ensure_index index_dir w = Inr w1"
  shows "saved_index index_dir w1 = saved_index index_dir w"
    and "embedded w1 = embedded w"
    and "\<exists>c. disk w1 index_dir = Directory c"
    and "p \<noteq> index_dir \<Longrightarrow> disk w1 p = disk w p"
  using assms by (auto simp: ensure_index_def saved_index_def split: dir_state.splits)

lemma ensure_index_ok:
  "disk w index_dir \<noteq> NotADirectory \<Longrightarrow> \<exists>w1. ensure_index index_dir w = Inr w1"
  by (cases "disk w index_dir") (simp_all add: ensure_index_def)

lemma ensure_index_not_a_directory:
  "disk w index_dir = NotADirectory \<Longrightarrow>
     add_pdfs_to_index loader split_documents client pdf_paths index_dir api_key w
       = (Inl FileExistsError, w)"
  by (simp add: add_pdfs_to_index_def ensure_index_def)

lemma nth_appended_twice:
  "i < length new \<Longrightarrow>
     (old @ new @ new) ! (length old + i) = new ! i
   \<and> (old @ new @ new) ! (length old + length new + i) = new ! i"
  by (simp add: nth_append)

lemma saved_index_is_directory:
  "saved_index index_dir w = Some vs \<Longrightarrow> disk w index_dir \<noteq> NotADirectory"
  by (auto simp: saved_index_def)

text \<open>
  The batch fails with the failure of the first file that fails to load; it loads when
  every file loads, and then the pages come in batch order.
\<close>

lemma load_pdfs_first_failure:
  assumes "\<forall>p \<in> set before. \<exists>pages. loader p = Inr pages" and "loader path = Inl e"
  shows "load_pdfs loader (before @ path # rest) = Inl e"
  using assms(1)
proof (induction before)
  case Nil
  then show ?case by (simp add: assms(2))
next
  case (Cons a before)
  then obtain pages where "loader a = Inr pages" by auto
  moreover have "load_pdfs loader (before @ path # rest) = Inl e" using Cons by simp
  ultimately show ?case by simp
qed

lemma load_pdfs_success:
  "\<forall>p \<in> set pdf_paths. loader p = Inr (pages p) \<Longrightarrow>
     load_pdfs loader pdf_paths = Inr (concat (map pages pdf_paths))"
  by (induction pdf_paths) simp_all

text \<open>The three ways through \<open>add_pdfs_to_index\<close> once the directory is there.\<close>

lemma add_pdfs_to_index_load_failure:
  assumes "load_pdfs loader pdf_paths = Inl e"
    and "disk w index_dir \<noteq> NotADirectory"
  shows "\<exists>w'. add_pdfs_to_index loader split_documents client pdf_paths index_dir api_key w = (Inl e, w')
           \<and> embedded w' = embedded w
           \<and> saved_index index_dir w' = saved_index index_dir w"
proof -
  obtain w1 where w1: "ensure_index index_dir w = Inr w1"
    using ensure_index_ok[OF assms(2)] by blast
  have "add_pdfs_to_index loader split_documents client pdf_paths index_dir api_key w = (Inl e, w1)"
    by (simp add: add_pdfs_to_index_def w1 assms(1))
  with ensure_index_frame(1,2)[OF w1] show ?thesis by blast
qed

lemma add_pdfs_to_index_embed_failure:
  assumes "load_pdfs loader pdf_paths = Inr raw_docs" and "raw_docs \<noteq> []"
    and "embed_documents (get_embeddings client api_key)
           (map page_content (split_docs split_documents raw_docs 1000 150)) = Inl e"
    and "disk w index_dir \<noteq> NotADirectory"
  shows "\<exists>w'. add_pdfs_to_index loader split_documents client pdf_paths index_dir api_key w = (Inl e, w')
           \<and> saved_index index_dir w' = saved_index index_dir w
           \<and> (\<forall>p. p \<noteq> index_dir \<longrightarrow> disk w' p = disk w p)"
proof -
  obtain w1 where w1: "ensure_index index_dir w = Inr w1"
    using ensure_index_ok[OF assms(4)] by blast
  let ?docs = "split_docs split_documents raw_docs 1000 150"
  let ?w2 = "w1\<lparr>embedded := embedded w1 @ [map page_content ?docs]\<rparr>"
  have "add_pdfs_to_index loader split_documents client pdf_paths index_dir api_key w = (Inl e, ?w2)"
    using assms(1,2,3) w1
    by (auto simp: add_pdfs_to_index_def Let_def load_local_def index_faiss_exists_def
          add_documents_def from_documents_def call_embed_documents_def
          split: dir_state.splits option.splits)
  moreover have "saved_index index_dir ?w2 = saved_index index_dir w"
    using ensure_index_frame(1)[OF w1] by (simp add: saved_index_def)
  moreover have "\<forall>p. p \<noteq> index_dir \<longrightarrow> disk ?w2 p = disk w p"
    using ensure_index_frame(4)[OF w1] by simp
  ultimately show ?thesis by blast
qed

lemma uniform_append_again: "uniform (xs @ ys) \<Longrightarrow> uniform (xs @ ys @ ys)"
proof (cases xs)
  case Nil
  then show "uniform (xs @ ys) \<Longrightarrow> uniform (xs @ ys @ ys)"
    by (cases ys) (auto simp: list_all_iff)
next
  case (Cons x xs')
  then show "uniform (xs @ ys) \<Longrightarrow> uniform (xs @ ys @ ys)"
    by (cases x) (auto simp: list_all_iff)
qed

lemma add_pdfs_to_index_success:
  assumes "load_pdfs loader pdf_paths = Inr raw_docs" and "raw_docs \<noteq> []"
    and "embed_documents (get_embeddings client api_key)
           (map page_content (split_docs split_documents raw_docs 1000 150)) = Inr vecs"
    and "split_docs split_documents raw_docs 1000 150 \<noteq> []"
    and "length vecs = length (split_docs split_documents raw_docs 1000 150)"
    and "uniform ((case saved_index index_dir w of None \<Rightarrow> [] | Some es \<Rightarrow> es)
                  @ zip (split_docs split_documents raw_docs 1000 150) vecs)"
    and "disk w index_dir \<noteq> NotADirectory"
  shows "\<exists>w'. add_pdfs_to_index loader split_documents client pdf_paths index_dir api_key w = (Inr (), w')
           \<and> saved_index index_dir w' =
               Some ((case saved_index index_dir w of None \<Rightarrow> [] | Some es \<Rightarrow> es)
                     @ zip (split_docs split_documents raw_docs 1000 150) vecs)
           \<and> (\<forall>p. p \<noteq> index_dir \<longrightarrow> disk w' p = disk w p)"
proof -
  obtain w1 where w1: "ensure_index index_dir w = Inr w1"
    using ensure_index_ok[OF assms(7)] by blast
  let ?docs = "split_docs split_documents raw_docs 1000 150"
  let ?w2 = "w1\<lparr>embedded := embedded w1 @ [map page_content ?docs]\<rparr>"
  let ?old = "case saved_index index_dir w of None \<Rightarrow> [] | Some es \<Rightarrow> es"
  let ?vs = "\<lparr>embedding_function = get_embeddings client api_key, entries = ?old @ zip ?docs vecs\<rparr>"
  have old: "saved_index index_dir w1 = saved_index index_dir w"
    by (rule ensure_index_frame(1)[OF w1])
  have app: "append_entries ?old ?docs vecs = Inr (?old @ zip ?docs vecs)"
    using assms(4,5,6) by (simp add: append_entries_def)
  have "add_pdfs_to_index loader split_documents client pdf_paths index_dir api_key w
          = (Inr (), save_local ?vs index_dir ?w2)"
    using assms(1,2,3) w1 old app
    by (auto simp: add_pdfs_to_index_def Let_def load_local_def index_faiss_exists_def
          add_documents_def from_documents_def call_embed_documents_def saved_index_def
          split: dir_state.splits option.splits)
  moreover have "saved_index index_dir (save_local ?vs index_dir ?w2) = Some (?old @ zip ?docs vecs)"
    by (simp add: saved_index_def save_local_def)
  moreover have "\<forall>p. p \<noteq> index_dir \<longrightarrow> disk (save_local ?vs index_dir ?w2) p = disk w p"
    using ensure_index_frame(4)[OF w1] by (simp add: save_local_def)
  ultimately show ?thesis by blast
qed

text \<open>What a normal return of \<open>add_pdfs_to_index\<close> on a batch with documents tells.\<close>

lemma add_pdfs_to_index_returned:
  assumes "load_pdfs loader pdf_paths = Inr raw_docs" and "raw_docs \<noteq> []"
    and "add_pdfs_to_index loader split_documents client pdf_paths index_dir api_key w = (Inr (), w1)"
  shows "\<exists>vecs.
           embed_documents (get_embeddings client api_key)
             (map page_content (split_docs split_documents raw_docs 1000 150)) = Inr vecs
         \<and> split_docs split_documents raw_docs 1000 150 \<noteq> []
         \<and> length vecs = length (split_docs split_documents raw_docs 1000 150)
         \<and> uniform ((case saved_index index_dir w of None \<Rightarrow> [] | Some es \<Rightarrow> es)
                      @ zip (split_docs split_documents raw_docs 1000 150) vecs)
         \<and> disk w index_dir \<noteq> NotADirectory"
proof -
  let ?docs = "split_docs split_documents raw_docs 1000 150"
  let ?old = "case saved_index index_dir w of None \<Rightarrow> [] | Some es \<Rightarrow> es"
  have dir: "disk w index_dir \<noteq> NotADirectory"
    using assms(3) by (auto simp: add_pdfs_to_index_def ensure_index_def split: dir_state.splits)
  then obtain w0 where w0: "ensure_index index_dir w = Inr w0"
    using ensure_index_ok by blast
  have old: "saved_index index_dir w0 = saved_index index_dir w"
    by (rule ensure_index_frame(1)[OF w0])
  obtain vecs where vecs:
    "embed_documents (get_embeddings client api_key) (map page_content ?docs) = Inr vecs"
  proof (cases "embed_documents (get_embeddings client api_key) (map page_content ?docs)")
    case (Inl e)
    from add_pdfs_to_index_embed_failure[OF assms(1,2) Inl dir] assms(3) show ?thesis by auto
  next
    case (Inr v)
    then show ?thesis using that by blast
  qed
  have "append_entries ?old ?docs vecs \<noteq> Inl ValueError
        \<and> append_entries ?old ?docs vecs \<noteq> Inl DimensionMismatchError"
    using assms w0 old vecs
    by (auto simp: add_pdfs_to_index_def Let_def load_local_def index_faiss_exists_def
          add_documents_def from_documents_def call_embed_documents_def saved_index_def
          split: dir_state.splits option.splits sum.splits)
  then have "?docs \<noteq> [] \<and> length vecs = length ?docs \<and> uniform (?old @ zip ?docs vecs)"
    by (auto simp: append_entries_def split: if_splits)
  with vecs dir show ?thesis by blast
qed

subsection \<open>A loader failure\<close>

text \<open>
  Claim C1, as amended. \<open>_load_pdfs\<close> has no handler around \<open>loader.load()\<close>, and
  \<open>add_pdfs_to_index\<close> none around \<open>list(_load_pdfs(pdf_paths))\<close>. So when the loader
  fails on a file of the batch and every file before it loads, the call ends with the
  failure of that file, the first that fails; nothing has been sent to the embedding
  service and the saved index under \<open>index_dir\<close> is what it was. No file of the batch is
  ingested, whatever the files after the failing one are.
\<close>

theorem loader_failure_aborts_batch:
  assumes "pdf_paths = before @ path # rest"
    and "\<forall>p \<in> set before. \<exists>pages. loader p = Inr pages"
    and "loader path = Inl e"
    and "disk w index_dir \<noteq> NotADirectory"
  shows "\<exists>w'.
           add_pdfs_to_index loader split_documents client pdf_paths index_dir api_key w = (Inl e, w')
         \<and> embedded w' = embedded w
         \<and> saved_index index_dir w' = saved_index index_dir w"
proof -
  have "load_pdfs loader pdf_paths = Inl e"
    unfolding assms(1) by (rule load_pdfs_first_failure[OF assms(2,3)])
  from add_pdfs_to_index_load_failure[OF this assms(4)] show ?thesis .
qed

text \<open>
  The theorem at a batch of three files whose second file fails to load and whose third
  file fails as well: the failure is that of the second.
\<close>

theorem loader_failure_aborts_batch_witness:
  "\<exists>w'.
     add_pdfs_to_index example_loader example_splitter example_client
       [''a.pdf'', ''broken.pdf'', ''torn.pdf''] ''idx'' ''key'' indexed_world
       = (Inl (LoaderError ''broken.pdf''), w')
     \<and> embedded w' = embedded indexed_world
     \<and> saved_index ''idx'' w' = saved_index ''idx'' indexed_world"
  by (rule loader_failure_aborts_batch[where before = "[''a.pdf'']" and path = "''broken.pdf''"
        and rest = "[''torn.pdf'']"])
     (simp_all add: example_loader_def indexed_world_def)

text \<open>
  Claim C1 as stated fails. In a batch of three files into an empty world, the loader
  fails on the second file only; the first and the third file load. The call ends with
  the loader's failure, no index has been saved and nothing was embedded: the two other
  files have not been ingested.
\<close>

theorem loader_failure_counterexample:
  "example_loader ''a.pdf'' = Inr [\<lparr>page_content = ''a.pdf'', metadata = [(''source'', ''a.pdf''), (''page'', ''0'')]\<rparr>]
   \<and> example_loader ''broken.pdf'' = Inl (LoaderError ''broken.pdf'')
   \<and> example_loader ''c.pdf'' = Inr [\<lparr>page_content = ''c.pdf'', metadata = [(''source'', ''c.pdf''), (''page'', ''0'')]\<rparr>]
   \<and> fst (add_pdfs_to_index example_loader example_splitter example_client
        [''a.pdf'', ''broken.pdf'', ''c.pdf''] ''idx'' ''key'' empty_world) = Inl (LoaderError ''broken.pdf'')
   \<and> saved_index ''idx'' (snd (add_pdfs_to_index example_loader example_splitter example_client
        [''a.pdf'', ''broken.pdf'', ''c.pdf''] ''idx'' ''key'' empty_world)) = None
   \<and> embedded (snd (add_pdfs_to_index example_loader example_splitter example_client
        [''a.pdf'', ''broken.pdf'', ''c.pdf''] ''idx'' ''key'' empty_world)) = []"
  by (simp add: add_pdfs_to_index_def ensure_index_def example_loader_def empty_world_def
       saved_index_def)

subsection \<open>An embedder failure\<close>

text \<open>
  Claim C4. When the batch call to the embedder on the chunks of the batch fails, the
  ingestion ends with that failure and the saved index under \<open>index_dir\<close> is what it was
  before the call: the store that was there, or none. Nothing else on the disk changed.
  (The store is saved only after the embedding returned, in both branches.)
\<close>

theorem embedder_failure_no_persist:
  assumes "load_pdfs loader pdf_paths = Inr raw_docs" and "raw_docs \<noteq> []"
    and "embed_documents (get_embeddings client api_key)
           (map page_content (split_docs split_documents raw_docs 1000 150)) = Inl e"
    and "disk w index_dir \<noteq> NotADirectory"
  shows "\<exists>w'. add_pdfs_to_index loader split_documents client pdf_paths index_dir api_key w = (Inl e, w')
           \<and> saved_index index_dir w' = saved_index index_dir w
           \<and> (\<forall>p. p \<noteq> index_dir \<longrightarrow> disk w' p = disk w p)"
  using assms by (rule add_pdfs_to_index_embed_failure)

text \<open>The theorem at a batch whose embedding fails, into a directory that holds an index.\<close>

theorem embedder_failure_no_persist_witness:
  "\<exists>w'. add_pdfs_to_index example_loader example_splitter example_client [''a.pdf'', ''down.pdf''] ''idx'' ''key''
            indexed_world
          = (Inl (ServiceError ''rate limit''), w')
       \<and> saved_index ''idx'' w' = saved_index ''idx'' indexed_world
       \<and> (\<forall>p. p \<noteq> ''idx'' \<longrightarrow> disk w' p = disk indexed_world p)"
  by (rule embedder_failure_no_persist[where raw_docs =
        "[\<lparr>page_content = ''a.pdf'', metadata = [(''source'', ''a.pdf''), (''page'', ''0'')]\<rparr>,
          \<lparr>page_content = ''down.pdf'', metadata = [(''source'', ''down.pdf''), (''page'', ''0'')]\<rparr>]"])
     (simp_all add: example_loader_def empty_world_def indexed_world_def get_embeddings_def
        example_client_def split_docs_def example_splitter_def)

subsection \<open>Ingesting a file again\<close>

text \<open>
  Claim C7. Let a batch with documents have been ingested, \<open>docs\<close> being its chunks and
  \<open>old\<close> the entries that the index held before (none when there was no index). Then the
  embedder gave one vector for every chunk, the saved index is \<open>old\<close> followed by the
  chunks with their vectors, and ingesting the same batch again into the same path
  returns normally and appends the same entries once more. So every chunk of the batch
  is in the index twice, at two positions that lie one batch apart, with the same text
  and embedding.
\<close>

theorem reingest_appends_duplicates:
  assumes "load_pdfs loader pdf_paths = Inr raw_docs" and "raw_docs \<noteq> []"
    and "add_pdfs_to_index loader split_documents client pdf_paths index_dir api_key w = (Inr (), w1)"
    and "docs = split_docs split_documents raw_docs 1000 150"
    and "old = (case saved_index index_dir w of None \<Rightarrow> [] | Some es \<Rightarrow> es)"
  shows "\<exists>vecs w2.
           embed_documents (get_embeddings client api_key) (map page_content docs) = Inr vecs
         \<and> docs \<noteq> [] \<and> length vecs = length docs
         \<and> saved_index index_dir w1 = Some (old @ zip docs vecs)
         \<and> add_pdfs_to_index loader split_documents client pdf_paths index_dir api_key w1 = (Inr (), w2)
         \<and> saved_index index_dir w2 = Some (old @ zip docs vecs @ zip docs vecs)
         \<and> (\<forall>i < length docs.
               (old @ zip docs vecs @ zip docs vecs) ! (length old + i) = (docs ! i, vecs ! i)
             \<and> (old @ zip docs vecs @ zip docs vecs) ! (length old + length docs + i) = (docs ! i, vecs ! i))"
proof -
  from add_pdfs_to_index_returned[OF assms(1,2,3)] obtain vecs where vecs:
    "embed_documents (get_embeddings client api_key) (map page_content docs) = Inr vecs"
    "docs \<noteq> []" "length vecs = length docs" "uniform (old @ zip docs vecs)"
    "disk w index_dir \<noteq> NotADirectory"
    unfolding assms(4,5) by blast
  let ?new = "zip docs vecs"
  from add_pdfs_to_index_success[OF assms(1,2)
         vecs(1)[unfolded assms(4)] vecs(2)[unfolded assms(4)] vecs(3)[unfolded assms(4)]
         vecs(4)[unfolded assms(4,5)] vecs(5)] assms(3)
  have s1: "saved_index index_dir w1 = Some (old @ ?new)"
    unfolding assms(4,5) by auto
  have dir1: "disk w1 index_dir \<noteq> NotADirectory"
    by (rule saved_index_is_directory[OF s1])
  have u1: "uniform ((case saved_index index_dir w1 of None \<Rightarrow> [] | Some es \<Rightarrow> es) @ ?new)"
    using uniform_append_again[OF vecs(4)] by (simp add: s1)
  from add_pdfs_to_index_success[OF assms(1,2)
         vecs(1)[unfolded assms(4)] vecs(2)[unfolded assms(4)] vecs(3)[unfolded assms(4)]
         u1[unfolded assms(4)] dir1]
  obtain w2 where w2:
    "add_pdfs_to_index loader split_documents client pdf_paths index_dir api_key w1 = (Inr (), w2)"
    "saved_index index_dir w2 = Some (old @ ?new @ ?new)"
    unfolding assms(4)[symmetric] by (auto simp: s1)
  have len: "length ?new = length docs" using vecs(3) by simp
  have "\<forall>i < length docs.
       (old @ ?new @ ?new) ! (length old + i) = (docs ! i, vecs ! i)
     \<and> (old @ ?new @ ?new) ! (length old + length docs + i) = (docs ! i, vecs ! i)"
  proof (intro allI impI)
    fix i assume i: "i < length docs"
    then have "i < length ?new" using len by simp
    from nth_appended_twice[OF this, of old] len i vecs(3)
    show "(old @ ?new @ ?new) ! (length old + i) = (docs ! i, vecs ! i)
        \<and> (old @ ?new @ ?new) ! (length old + length docs + i) = (docs ! i, vecs ! i)"
      by simp
  qed
  with vecs(1,2,3) s1 w2 show ?thesis by blast
qed

text \<open>
  The theorem at one file with one page, ingested twice into a directory that holds an
  index of one entry: the index then holds that entry and the page twice.
\<close>

theorem reingest_appends_duplicates_witness:
  "\<exists>vecs w2.
     embed_documents (get_embeddings example_client ''key'')
       (map page_content [\<lparr>page_content = ''a.pdf'', metadata = [(''source'', ''a.pdf''), (''page'', ''0'')]\<rparr>])
       = Inr vecs
   \<and> [\<lparr>page_content = ''a.pdf'', metadata = [(''source'', ''a.pdf''), (''page'', ''0'')]\<rparr>] \<noteq> []
   \<and> length vecs = length [\<lparr>page_content = ''a.pdf'', metadata = [(''source'', ''a.pdf''), (''page'', ''0'')]\<rparr>]
   \<and> saved_index ''idx'' (snd (add_pdfs_to_index example_loader example_splitter example_client
        [''a.pdf''] ''idx'' ''key'' indexed_world))
       = Some ([(\<lparr>page_content = ''old'', metadata = []\<rparr>, [3])]
               @ zip [\<lparr>page_content = ''a.pdf'', metadata = [(''source'', ''a.pdf''), (''page'', ''0'')]\<rparr>] vecs)
   \<and> add_pdfs_to_index example_loader example_splitter example_client [''a.pdf''] ''idx'' ''key''
        (snd (add_pdfs_to_index example_loader example_splitter example_client
           [''a.pdf''] ''idx'' ''key'' indexed_world)) = (Inr (), w2)
   \<and> saved_index ''idx'' w2
       = Some ([(\<lparr>page_content = ''old'', metadata = []\<rparr>, [3])]
               @ zip [\<lparr>page_content = ''a.pdf'', metadata = [(''source'', ''a.pdf''), (''page'', ''0'')]\<rparr>] vecs
               @ zip [\<lparr>page_content = ''a.pdf'', metadata = [(''source'', ''a.pdf''), (''page'', ''0'')]\<rparr>] vecs)
   \<and> (\<forall>i < length [\<lparr>page_content = ''a.pdf'', metadata = [(''source'', ''a.pdf''), (''page'', ''0'')]\<rparr>].
         ([(\<lparr>page_content = ''old'', metadata = []\<rparr>, [3])]
           @ zip [\<lparr>page_content = ''a.pdf'', metadata = [(''source'', ''a.pdf''), (''page'', ''0'')]\<rparr>] vecs
           @ zip [\<lparr>page_content = ''a.pdf'', metadata = [(''source'', ''a.pdf''), (''page'', ''0'')]\<rparr>] vecs)
           ! (length [(\<lparr>page_content = ''old'', metadata = []\<rparr>, [3::real])] + i)
         = ([\<lparr>page_content = ''a.pdf'', metadata = [(''source'', ''a.pdf''), (''page'', ''0'')]\<rparr>] ! i, vecs ! i)
       \<and> ([(\<lparr>page_content = ''old'', metadata = []\<rparr>, [3])]
           @ zip [\<lparr>page_content = ''a.pdf'', metadata = [(''source'', ''a.pdf''), (''page'', ''0'')]\<rparr>] vecs
           @ zip [\<lparr>page_content = ''a.pdf'', metadata = [(''source'', ''a.pdf''), (''page'', ''0'')]\<rparr>] vecs)
           ! (length [(\<lparr>page_content = ''old'', metadata = []\<rparr>, [3::real])]
              + length [\<lparr>page_content = ''a.pdf'', metadata = [(''source'', ''a.pdf''), (''page'', ''0'')]\<rparr>] + i)
         = ([\<lparr>page_content = ''a.pdf'', metadata = [(''source'', ''a.pdf''), (''page'', ''0'')]\<rparr>] ! i, vecs ! i))"
  by (rule reingest_appends_duplicates[where w = indexed_world and loader = example_loader
        and split_documents = example_splitter and pdf_paths = "[''a.pdf'']"])
     (simp_all add: add_pdfs_to_index_def ensure_index_def example_loader_def indexed_world_def
        index_faiss_exists_def load_local_def add_documents_def append_entries_def
        call_embed_documents_def get_embeddings_def example_client_def split_docs_def
        example_splitter_def save_local_def saved_index_def)

subsection \<open>A batch without documents\<close>

text \<open>
  Claim C10. When loading the batch yields no document (an empty list of files, or files
  without pages), \<open>add_pdfs_to_index\<close> returns normally, has sent nothing to the
  embedding service and has saved nothing: the saved index under \<open>index_dir\<close> is what it
  was, the directory exists, and nothing else on the disk changed.
\<close>

theorem no_documents_no_change:
  assumes "load_pdfs loader pdf_paths = Inr []"
    and "disk w index_dir \<noteq> NotADirectory"
  shows "\<exists>w'. add_pdfs_to_index loader split_documents client pdf_paths index_dir api_key w = (Inr (), w')
           \<and> embedded w' = embedded w
           \<and> saved_index index_dir w' = saved_index index_dir w
           \<and> (\<exists>c. disk w' index_dir = Directory c)
           \<and> (\<forall>p. p \<noteq> index_dir \<longrightarrow> disk w' p = disk w p)"
proof -
  obtain w1 where w1: "ensure_index index_dir w = Inr w1"
    using ensure_index_ok[OF assms(2)] by blast
  have "add_pdfs_to_index loader split_documents client pdf_paths index_dir api_key w = (Inr (), w1)"
    by (simp add: add_pdfs_to_index_def w1 assms(1))
  with ensure_index_frame[OF w1] show ?thesis by blast
qed

text \<open>The theorem at a file without pages, into a directory that holds an index.\<close>

theorem no_documents_no_change_witness:
  "\<exists>w'. add_pdfs_to_index example_loader example_splitter example_client [''blank.pdf''] ''idx'' ''key''
            indexed_world = (Inr (), w')
       \<and> embedded w' = embedded indexed_world
       \<and> saved_index ''idx'' w' = saved_index ''idx'' indexed_world
       \<and> (\<exists>c. disk w' ''idx'' = Directory c)
       \<and> (\<forall>p. p \<noteq> ''idx'' \<longrightarrow> disk w' p = disk indexed_world p)"
  by (rule no_documents_no_change)
     (simp_all add: example_loader_def empty_world_def indexed_world_def)

section \<open>Properties of retrieval and answering\<close>

subsection \<open>Ranking\<close>

text \<open>
  A stable sort by a key, on a list of pairs whose first components (the positions)
  increase, sorts by the key and then by the position.
\<close>

lemma insort_key_by_key_then_position:
  fixes f :: "nat \<times> 'a \<Rightarrow> 'k::linorder"
  assumes "sorted_wrt (\<lambda>x y. f x < f y \<or> (f x = f y \<and> fst x < fst y)) xs"
    and "\<forall>y \<in> set xs. fst x < fst y"
  shows "sorted_wrt (\<lambda>x y. f x < f y \<or> (f x = f y \<and> fst x < fst y)) (insort_key f x xs)"
  using assms
proof (induction xs)
  case Nil
  then show ?case by simp
next
  case (Cons y ys)
  show ?case
  proof (cases "f x \<le> f y")
    case True
    have "f x < f z \<or> (f x = f z \<and> fst x < fst z)" if "z \<in> set (y # ys)" for z
    proof -
      have "f y \<le> f z" using that Cons.prems(1) by auto
      with True have "f x \<le> f z" by simp
      moreover have "fst x < fst z" using that Cons.prems(2) by auto
      ultimately show ?thesis by auto
    qed
    with True Cons.prems(1) show ?thesis by simp
  next
    case False
    then have "f y < f x" by simp
    moreover have "sorted_wrt (\<lambda>x y. f x < f y \<or> (f x = f y \<and> fst x < fst y)) (insort_key f x ys)"
      using Cons.IH Cons.prems by simp
    ultimately show ?thesis using False Cons.prems(1) by (auto simp: set_insort_key)
  qed
qed

lemma sort_key_by_key_then_position:
  fixes f :: "nat \<times> 'a \<Rightarrow> 'k::linorder"
  assumes "sorted_wrt (<) (map fst xs)"
  shows "sorted_wrt (\<lambda>x y. f x < f y \<or> (f x = f y \<and> fst x < fst y)) (sort_key f xs)"
  using assms
proof (induction xs)
  case Nil
  then show ?case by simp
next
  case (Cons x xs)
  have "\<forall>y \<in> set (sort_key f xs). fst x < fst y" using Cons.prems by auto
  moreover have "sorted_wrt (\<lambda>x y. f x < f y \<or> (f x = f y \<and> fst x < fst y)) (sort_key f xs)"
    using Cons by simp
  ultimately show ?case by (simp add: insort_key_by_key_then_position)
qed

lemma distinct_map_insort_key:
  "distinct (map g (insort_key f x xs)) \<longleftrightarrow> g x \<notin> g ` set xs \<and> distinct (map g xs)"
  by (induction xs) (auto simp: set_insort_key)

lemma distinct_map_sort_key:
  "distinct (map g (sort_key f xs)) \<longleftrightarrow> distinct (map g xs)"
  by (induction xs) (simp_all add: distinct_map_insort_key)

lemma ranked_length: "length (ranked metric q es) = length es"
  by (simp add: ranked_def)

lemma ranked_set:
  "p \<in> set (ranked metric q es) \<longleftrightarrow> fst p < length es \<and> snd p = es ! fst p"
  by (auto simp: ranked_def in_set_enumerate_eq)

lemma ranked_distinct: "distinct (map fst (ranked metric q es))"
  by (simp add: ranked_def distinct_map_sort_key)

lemma ranked_sorted:
  "sorted_wrt (\<lambda>x y. outranks metric q es (fst x) (fst y)) (ranked metric q es)"
proof -
  let ?f = "\<lambda>(i, d, v). - metric q v"
  have "sorted_wrt (<) (map fst (enumerate 0 es))" by simp
  then have "sorted_wrt (\<lambda>x y. ?f x < ?f y \<or> (?f x = ?f y \<and> fst x < fst y)) (ranked metric q es)"
    unfolding ranked_def by (rule sort_key_by_key_then_position)
  moreover have "outranks metric q es (fst x) (fst y)"
    if "x \<in> set (ranked metric q es)" "y \<in> set (ranked metric q es)"
       "?f x < ?f y \<or> (?f x = ?f y \<and> fst x < fst y)" for x y
  proof -
    have "snd x = es ! fst x" "snd y = es ! fst y" using that(1,2) by (simp_all add: ranked_set)
    then show ?thesis using that(3) by (auto simp: outranks_def split: prod.splits)
  qed
  ultimately show ?thesis by (rule sorted_wrt_mono_rel[rotated])
qed

lemma hits_length: "length (hits metric es q k) = min (nat k) (length es)"
  by (simp add: hits_def ranked_length)

lemma hits_distinct: "distinct (hits metric es q k)"
  unfolding hits_def take_map[symmetric] by (rule distinct_take[OF ranked_distinct])

lemma hits_in_range: "i \<in> set (hits metric es q k) \<Longrightarrow> i < length es"
  by (auto simp: hits_def ranked_set dest!: in_set_takeD)

lemma hits_sorted: "sorted_wrt (outranks metric q es) (hits metric es q k)"
proof -
  have "sorted_wrt (\<lambda>x y. outranks metric q es (fst x) (fst y)) (take (nat k) (ranked metric q es))"
    by (rule sorted_wrt_take[OF ranked_sorted])
  then show ?thesis by (simp add: hits_def sorted_wrt_map)
qed

lemma hits_best:
  assumes "j < length es" and "j \<notin> set (hits metric es q k)" and "i \<in> set (hits metric es q k)"
  shows "outranks metric q es i j"
proof -
  let ?r = "ranked metric q es"
  have "(j, es ! j) \<in> set ?r" using assms(1) by (simp add: ranked_set)
  then have "(j, es ! j) \<in> set (take (nat k) ?r) \<union> set (drop (nat k) ?r)"
    by (metis append_take_drop_id set_append)
  moreover have "(j, es ! j) \<notin> set (take (nat k) ?r)"
    using assms(2) by (force simp: hits_def)
  ultimately have j: "(j, es ! j) \<in> set (drop (nat k) ?r)" by blast
  obtain x where x: "x \<in> set (take (nat k) ?r)" "fst x = i"
    using assms(3) by (auto simp: hits_def)
  have "sorted_wrt (\<lambda>x y. outranks metric q es (fst x) (fst y)) (take (nat k) ?r @ drop (nat k) ?r)"
    using ranked_sorted[of metric q es] by simp
  then have "outranks metric q es (fst x) (fst (j, es ! j))"
    using x(1) j unfolding sorted_wrt_append by blast
  then show ?thesis using x(2) by simp
qed

lemma similarity_search_hits:
  "similarity_search_by_vector metric vs q k =
     map (\<lambda>i. fst (entries vs ! i)) (hits metric (entries vs) q k)"
proof -
  have "(case p of (i, d, v) \<Rightarrow> d) = fst (entries vs ! fst p)"
    if "p \<in> set (take (nat k) (ranked metric q (entries vs)))" for p
  proof -
    from that have "p \<in> set (ranked metric q (entries vs))" by (rule in_set_takeD)
    then have "snd p = entries vs ! fst p" by (simp add: ranked_set)
    then show ?thesis by (cases p) (auto simp: case_prod_beta)
  qed
  then show ?thesis by (simp add: similarity_search_by_vector_def hits_def)
qed

text \<open>
  Claim C3. For a positive \<open>k\<close>, an index of \<open>n\<close> entries loaded by \<open>load_retriever\<close>
  and a query that the embedder maps to the vector \<open>q\<close>, retrieval returns the documents
  of exactly \<open>min k n\<close> distinct positions of the index, ranked: each position outranks
  every later one, that is, its entry is more similar to \<open>q\<close>, or as similar and
  inserted earlier. They are the top of the index: each outranks every position that is
  not returned.
\<close>

theorem retrieval_top_k:
  assumes "0 < k"
    and "saved_index index_dir w = Some es"
    and "embed_query (get_embeddings client api_key) question = Inr q"
  shows "\<exists>r ps. load_retriever client index_dir api_key k w = Inr r
            \<and> get_relevant_documents metric r question = Inr (map (\<lambda>i. fst (es ! i)) ps)
            \<and> length ps = min (nat k) (length es)
            \<and> distinct ps
            \<and> (\<forall>i \<in> set ps. i < length es)
            \<and> sorted_wrt (outranks metric q es) ps
            \<and> (\<forall>j < length es. j \<notin> set ps \<longrightarrow> (\<forall>i \<in> set ps. outranks metric q es i j))"
proof -
  let ?emb = "get_embeddings client api_key"
  let ?r = "as_retriever \<lparr>embedding_function = ?emb, entries = es\<rparr> k"
  let ?ps = "hits metric es q k"
  have "disk w index_dir = Directory (Some es)"
    using assms(2) by (auto simp: saved_index_def split: dir_state.splits)
  then have "load_retriever client index_dir api_key k w = Inr ?r"
    by (simp add: load_retriever_def load_local_def)
  moreover have "get_relevant_documents metric ?r question = Inr (map (\<lambda>i. fst (es ! i)) ?ps)"
    by (simp add: get_relevant_documents_def as_retriever_def assms(3) similarity_search_hits)
  moreover have "length ?ps = min (nat k) (length es)" by (rule hits_length)
  moreover have "distinct ?ps" by (rule hits_distinct)
  moreover have "\<forall>i \<in> set ?ps. i < length es" using hits_in_range by blast
  moreover have "sorted_wrt (outranks metric q es) ?ps" by (rule hits_sorted)
  moreover have "\<forall>j < length es. j \<notin> set ?ps \<longrightarrow> (\<forall>i \<in> set ?ps. outranks metric q es i j)"
    using hits_best by blast
  ultimately show ?thesis by blast
qed

text \<open>
  The theorem at an index of three entries and \<open>k = 2\<close>; the first and the third entry
  are as similar to the query.
\<close>

theorem retrieval_top_k_witness:
  "\<exists>r ps. load_retriever example_client ''idx'' ''key'' 2 library_world = Inr r
      \<and> get_relevant_documents example_metric r ''xy''
          = Inr (map (\<lambda>i. fst (example_entries ! i)) ps)
      \<and> length ps = min (nat 2) (length example_entries)
      \<and> distinct ps
      \<and> (\<forall>i \<in> set ps. i < length example_entries)
      \<and> sorted_wrt (outranks example_metric [2] example_entries) ps
      \<and> (\<forall>j < length example_entries.
            j \<notin> set ps \<longrightarrow> (\<forall>i \<in> set ps. outranks example_metric [2] example_entries i j))"
  by (rule retrieval_top_k)
     (simp_all add: saved_index_def library_world_def get_embeddings_def example_client_def)

text \<open>On that index the two positions returned are the first and the third, in this order.\<close>

lemma retrieval_example:
  "hits example_metric example_entries [2] 2 = [0, 2]"
  by (simp add: hits_def ranked_def enumerate_eq_zip example_metric_def example_entries_def upt_rec)

subsection \<open>The answer\<close>

text \<open>
  \<open>join\<close> concatenates the texts in their order, the separator between neighbours.
\<close>

lemma join_concat:
  "xs \<noteq> [] \<Longrightarrow> join sep xs @ sep = concat (map (\<lambda>x. x @ sep) xs)"
  by (induction sep xs rule: join.induct) simp_all

text \<open>
  Claim C9. For every question and every sequence \<open>docs\<close> that the retriever returns for
  it, \<open>answer_question\<close> sends the generation service a system message and a user message
  whose context is the texts of \<open>docs\<close> in their order, joined by a blank line; when the
  service responds, the result holds the text of the response as it is and \<open>docs\<close> itself
  as the sources.
\<close>

theorem answer_question_grounded:
  assumes "retriever question = Inr docs"
    and "chat model temperature api_key
           [\<lparr>role = ''system'', content = system_prompt\<rparr>,
            \<lparr>role = ''user'',
             content = ''Context:\<newline>'' @ join ''\<newline>\<newline>'' (map page_content docs)
                       @ ''\<newline>\<newline>Question: '' @ question\<rparr>] = Inr response"
  shows "answer_question chat retriever question model temperature api_key
           = Inr \<lparr>answer = (case content_attr response of Some c \<Rightarrow> c | None \<Rightarrow> str_of response),
                  sources = docs\<rparr>"
  using assms by (simp add: answer_question_def)

text \<open>The theorem at two retrieved chunks and a service that echoes the user message.\<close>

theorem answer_question_grounded_witness:
  "answer_question example_chat
     (\<lambda>question. Inr [\<lparr>page_content = ''aa'', metadata = []\<rparr>, \<lparr>page_content = ''cc'', metadata = []\<rparr>])
     ''xy'' ''gpt-4o-mini'' 0.2 ''key''
   = Inr \<lparr>answer = ''Context:\<newline>aa\<newline>\<newline>cc\<newline>\<newline>Question: xy'',
          sources = [\<lparr>page_content = ''aa'', metadata = []\<rparr>, \<lparr>page_content = ''cc'', metadata = []\<rparr>]\<rparr>"
  using answer_question_grounded[of
      "\<lambda>question. Inr [\<lparr>page_content = ''aa'', metadata = []\<rparr>, \<lparr>page_content = ''cc'', metadata = []\<rparr>]"
      "''xy''"
      "[\<lparr>page_content = ''aa'', metadata = []\<rparr>, \<lparr>page_content = ''cc'', metadata = []\<rparr>]"
      example_chat "''gpt-4o-mini''" "0.2" "''key''"]
  by (simp add: example_chat_def)

section \<open>Properties of the reset\<close>



lemma map_of_distinct_Some: "distinct (map fst t) \<Longrightarrow> (p, n) \<in> set t \<Longrightarrow> map_of t p = Some n"
  by simp










text \<open>
  The second loop skips a path that is gone: \<open>is_dir\<close> is false on it. A directory that
  is not empty is skipped as well.
\<close>

lemma rmdir_all_skips_gone: "map_of t p = None \<Longrightarrow> rmdir_all (p # ps) t = rmdir_all ps t"
  by (simp add: is_dir_def)

lemma rmdir_all_skips_nonempty: "has_children t p \<Longrightarrow> rmdir_all (p # ps) t = rmdir_all ps t"
  by (simp add: is_dir_def rmdir_def split: option.splits node.splits)

end
